theory Spec2Isabelle
  imports Main "HOL-Library.Sublist"
begin

section \<open>Data model (src/types.ts)\<close>

text \<open>
  The interfaces of \<^verbatim>\<open>types.ts\<close> as records. A JavaScript \<^verbatim>\<open>number\<close> is modelled as
  an integer: the catalog's ids are integers and no claim depends on the price. The field
  \<^verbatim>\<open>id\<close> is called \<open>video_id\<close>, since \<open>id\<close> is the identity function of HOL.
\<close>

record Video =
  video_id :: int
  url :: string
  thumbnailUrl :: string
  title :: string
  description :: string
  price :: int
  category :: string

record User =
  name :: string
  email :: string
  avatarUrl :: string

datatype ModalType = SignIn | SignUp

text \<open>
  \<^verbatim>\<open>Theme\<close>, \<^verbatim>\<open>LanguageCode\<close> and \<^verbatim>\<open>DeviceView\<close> are string enums and
  string literal unions: at run time a value of these types is a string, and the casts
  \<^verbatim>\<open>as Theme\<close>, \<^verbatim>\<open>as LanguageCode\<close>, \<^verbatim>\<open>as DeviceView\<close> of the initialisers check
  nothing. The model therefore keeps them as strings.
\<close>

type_synonym Theme = string
type_synonym LanguageCode = string
type_synonym DeviceView = string

definition Theme_Light :: Theme where
  "Theme_Light = ''light''"

definition Theme_Dark :: Theme where
  "Theme_Dark = ''dark''"

section \<open>Playlist (src/App.tsx, isVideoInPlaylist and togglePlaylist)\<close>

text \<open>\<^verbatim>\<open>Array.prototype.some\<close> and \<^verbatim>\<open>Array.prototype.filter\<close>.\<close>

fun array_some :: "('a \<Rightarrow> bool) \<Rightarrow> 'a list \<Rightarrow> bool" where
  "array_some p [] = False"
| "array_some p (x # xs) = (if p x then True else array_some p xs)"

fun array_filter :: "('a \<Rightarrow> bool) \<Rightarrow> 'a list \<Rightarrow> 'a list" where
  "array_filter p [] = []"
| "array_filter p (x # xs) = (if p x then x # array_filter p xs else array_filter p xs)"

definition isVideoInPlaylist :: "Video list \<Rightarrow> int \<Rightarrow> bool" where
  "isVideoInPlaylist playlist videoId = array_some (\<lambda>video. video_id video = videoId) playlist"

text \<open>
  The updater that \<^verbatim>\<open>togglePlaylist\<close> hands to \<^verbatim>\<open>setPlaylist\<close>: from the current
  playlist to the next one.
\<close>

definition togglePlaylist :: "Video list \<Rightarrow> Video \<Rightarrow> Video list" where
  "togglePlaylist currentPlaylist video =
     (let exists = array_some (\<lambda>v. video_id v = video_id video) currentPlaylist
      in if exists then array_filter (\<lambda>v. video_id v \<noteq> video_id video) currentPlaylist
         else currentPlaylist @ [video])"

text \<open>How often an id occurs in a playlist.\<close>

definition id_count :: "int \<Rightarrow> Video list \<Rightarrow> nat" where
  "id_count i P = length (filter (\<lambda>v. video_id v = i) P)"

section \<open>Filter pipeline (src/App.tsx, the body of the timer callback)\<close>

text \<open>
  \<^verbatim>\<open>String.prototype.toLowerCase\<close> on the ASCII range, and
  \<^verbatim>\<open>String.prototype.includes\<close> (a plain substring test, written with a prefix test
  at every position).
\<close>

definition toLowerCase_char :: "char \<Rightarrow> char" where
  "toLowerCase_char c =
     (let n = (of_char c :: nat) in if 65 \<le> n \<and> n \<le> 90 then char_of (n + 32) else c)"

definition toLowerCase :: "string \<Rightarrow> string" where
  "toLowerCase s = map toLowerCase_char s"

fun startsWith :: "string \<Rightarrow> string \<Rightarrow> bool" where
  "startsWith s [] = True"
| "startsWith [] (y # ys) = False"
| "startsWith (x # xs) (y # ys) = (if x = y then startsWith xs ys else False)"

fun str_includes :: "string \<Rightarrow> string \<Rightarrow> bool" where
  "str_includes [] sub = startsWith [] sub"
| "str_includes (x # xs) sub = (if startsWith (x # xs) sub then True else str_includes xs sub)"

text \<open>
  The truth value JavaScript gives a \<^verbatim>\<open>string | null\<close> in a condition: \<^verbatim>\<open>null\<close> and
  the empty string are falsy.
\<close>

fun truthy_string :: "string option \<Rightarrow> bool" where
  "truthy_string None = False"
| "truthy_string (Some s) = (s \<noteq> [])"

text \<open>
  The value the timer callback hands to \<^verbatim>\<open>setVideos\<close>. \<^verbatim>\<open>MOCK_VIDEOS\<close> comes from
  \<^verbatim>\<open>./constants\<close> and is a parameter.
\<close>

definition filterVideos ::
  "Video list \<Rightarrow> string \<Rightarrow> string option \<Rightarrow> Video list \<Rightarrow> Video list" where
  "filterVideos MOCK_VIDEOS searchQuery selectedCategory playlist =
     (let filteredVideos =
        (if selectedCategory = Some ''myPlaylist'' then playlist
         else if truthy_string selectedCategory
              then array_filter (\<lambda>v. Some (category v) = selectedCategory) MOCK_VIDEOS
              else MOCK_VIDEOS)
      in if truthy_string (Some searchQuery)
         then (let lowercasedQuery = toLowerCase searchQuery
               in array_filter
                    (\<lambda>v. str_includes (toLowerCase (title v)) lowercasedQuery \<or>
                         str_includes (toLowerCase (description v)) lowercasedQuery)
                    filteredVideos)
         else filteredVideos)"

section \<open>Translation resolver (src/App.tsx, t)\<close>

text \<open>
  \<^verbatim>\<open>TRANSLATIONS\<close> comes from \<^verbatim>\<open>./constants\<close>; the resolver reads it as \<^verbatim>\<open>any\<close>,
  so the model has JavaScript values: primitives and objects, an object being its own
  properties in order (an array is the object of its indices). Properties inherited from
  \<^verbatim>\<open>Object.prototype\<close> are left out: they are functions or \<^verbatim>\<open>null\<close>, never strings,
  so a walk through one of them ends in a value that is not a string, as a walk through a
  missing segment does.

  The operations that can throw return a sum: \<open>Inl\<close> is the exception.
\<close>

datatype error = SyntaxError | TypeError

datatype jsval =
  JUndefined | JNull | JBool bool | JNum int | JStr string | JObj "(string \<times> jsval) list"

fun typeof :: "jsval \<Rightarrow> string" where
  "typeof JUndefined = ''undefined''"
| "typeof JNull = ''object''"
| "typeof (JBool b) = ''boolean''"
| "typeof (JNum n) = ''number''"
| "typeof (JStr s) = ''string''"
| "typeof (JObj ps) = ''object''"

fun truthy :: "jsval \<Rightarrow> bool" where
  "truthy JUndefined = False"
| "truthy JNull = False"
| "truthy (JBool b) = b"
| "truthy (JNum n) = (n \<noteq> 0)"
| "truthy (JStr s) = (s \<noteq> [])"
| "truthy (JObj ps) = True"

text \<open>\<^verbatim>\<open>k in v\<close>: a TypeError when the right operand is not an object.\<close>

fun has_property :: "string \<Rightarrow> jsval \<Rightarrow> error + bool" where
  "has_property k (JObj ps) = Inr (k \<in> set (map fst ps))"
| "has_property k v = Inl TypeError"

text \<open>\<^verbatim>\<open>v[k]\<close>: a TypeError on \<^verbatim>\<open>undefined\<close> and \<^verbatim>\<open>null\<close>.\<close>

fun get_property :: "jsval \<Rightarrow> string \<Rightarrow> error + jsval" where
  "get_property (JObj ps) k = Inr (case map_of ps k of None \<Rightarrow> JUndefined | Some v \<Rightarrow> v)"
| "get_property JUndefined k = Inl TypeError"
| "get_property JNull k = Inl TypeError"
| "get_property v k = Inr JUndefined"

text \<open>\<^verbatim>\<open>key.split('.')\<close>: never the empty list.\<close>

fun str_split :: "char \<Rightarrow> string \<Rightarrow> string list" where
  "str_split sep [] = [[]]"
| "str_split sep (c # cs) =
     (if c = sep then [] # str_split sep cs
      else (case str_split sep cs of
              [] \<Rightarrow> [[c]]
            | w # ws \<Rightarrow> (c # w) # ws))"

text \<open>
  The loop condition \<^verbatim>\<open>result && typeof result === 'object' && k in result\<close>, with the
  short circuit of \<^verbatim>\<open>&&\<close>.
\<close>

definition segment_found :: "jsval \<Rightarrow> string \<Rightarrow> error + bool" where
  "segment_found result k =
     (if \<not> truthy result then Inr False
      else if typeof result \<noteq> ''object'' then Inr False
      else has_property k result)"

text \<open>The first loop: a miss sets \<^verbatim>\<open>result = undefined\<close> and breaks.\<close>

fun walk_language :: "jsval \<Rightarrow> string list \<Rightarrow> error + jsval" where
  "walk_language result [] = Inr result"
| "walk_language result (k # keys) =
     (case segment_found result k of
        Inl e \<Rightarrow> Inl e
      | Inr found \<Rightarrow>
          if found
          then (case get_property result k of
                  Inl e \<Rightarrow> Inl e
                | Inr next_result \<Rightarrow> walk_language next_result keys)
          else Inr JUndefined)"

text \<open>The second loop: a miss returns the key at once (\<open>None\<close> here).\<close>

fun walk_fallback :: "jsval \<Rightarrow> string list \<Rightarrow> error + jsval option" where
  "walk_fallback fallbackResult [] = Inr (Some fallbackResult)"
| "walk_fallback fallbackResult (k # keys) =
     (case segment_found fallbackResult k of
        Inl e \<Rightarrow> Inl e
      | Inr found \<Rightarrow>
          if found
          then (case get_property fallbackResult k of
                  Inl e \<Rightarrow> Inl e
                | Inr next_result \<Rightarrow> walk_fallback next_result keys)
          else Inr None)"

text \<open>
  The callback \<^verbatim>\<open>t\<close>, here \<open>translate\<close> (a one-letter constant would capture the
  variable of that name). \<^verbatim>\<open>typeof result === 'string'\<close> is the case \<open>JStr\<close>.
\<close>

definition translate :: "(string \<times> jsval) list \<Rightarrow> LanguageCode \<Rightarrow> string \<Rightarrow> error + string" where
  "translate TRANSLATIONS language key =
     (let keys = str_split (CHR ''.'') key in
      case get_property (JObj TRANSLATIONS) language of
        Inl e \<Rightarrow> Inl e
      | Inr start \<Rightarrow>
     (case walk_language start keys of
        Inl e \<Rightarrow> Inl e
      | Inr result \<Rightarrow>
     (case result of
        JStr s \<Rightarrow> Inr s
      | _ \<Rightarrow>
     (case get_property (JObj TRANSLATIONS) ''en'' of
        Inl e \<Rightarrow> Inl e
      | Inr fallback_start \<Rightarrow>
     (case walk_fallback fallback_start keys of
        Inl e \<Rightarrow> Inl e
      | Inr None \<Rightarrow> Inr key
      | Inr (Some fallbackResult) \<Rightarrow>
          (case fallbackResult of JStr s \<Rightarrow> Inr s | _ \<Rightarrow> Inr key))))))"

text \<open>
  The resolver as the specification words it: walk one segment at a time; the walk fails
  when the node is not a keyed mapping, lacks the segment, or the final value is not a
  string; on failure the same walk runs on the dictionary of \<^verbatim>\<open>en\<close>; when that fails
  too the key is the result.
\<close>

fun spec_walk :: "jsval \<Rightarrow> string list \<Rightarrow> string option" where
  "spec_walk (JStr s) [] = Some s"
| "spec_walk v [] = None"
| "spec_walk (JObj ps) (k # keys) =
     (case map_of ps k of None \<Rightarrow> None | Some v \<Rightarrow> spec_walk v keys)"
| "spec_walk v (k # keys) = None"

definition spec_resolve_in :: "(string \<times> jsval) list \<Rightarrow> string \<Rightarrow> string \<Rightarrow> string option" where
  "spec_resolve_in dictionaries lang key =
     (case map_of dictionaries lang of
        None \<Rightarrow> None
      | Some dictionary \<Rightarrow> spec_walk dictionary (str_split (CHR ''.'') key))"

definition spec_resolve :: "(string \<times> jsval) list \<Rightarrow> string \<Rightarrow> string \<Rightarrow> string" where
  "spec_resolve dictionaries lang key =
     (case spec_resolve_in dictionaries lang key of
        Some s \<Rightarrow> s
      | None \<Rightarrow>
          (case spec_resolve_in dictionaries ''en'' key of
             Some s \<Rightarrow> s
           | None \<Rightarrow> key))"

text \<open>The string a value is, when it is one.\<close>

fun as_string :: "jsval \<Rightarrow> string option" where
  "as_string (JStr s) = Some s"
| "as_string v = None"

section \<open>Loading from durable storage (src/App.tsx, the useState initialisers)\<close>

text \<open>
  \<^verbatim>\<open>localStorage\<close> is a map from keys to strings; \<^verbatim>\<open>getItem\<close> gives \<^verbatim>\<open>null\<close>
  (\<open>None\<close>) for a missing key.
\<close>

type_synonym storage = "string \<rightharpoonup> string"

definition getItem :: "storage \<Rightarrow> string \<Rightarrow> string option" where
  "getItem store key = store key"

text \<open>\<^verbatim>\<open>(stored as T) || fallback\<close>: the cast checks nothing.\<close>

definition or_default :: "string option \<Rightarrow> string \<Rightarrow> string" where
  "or_default stored fallback = (if truthy_string stored then the stored else fallback)"

definition isLoggedIn_init :: "storage \<Rightarrow> bool" where
  "isLoggedIn_init store = (getItem store ''isLoggedIn'' = Some ''true'')"

definition theme_init :: "storage \<Rightarrow> Theme" where
  "theme_init store = or_default (getItem store ''theme'') Theme_Dark"

definition language_init :: "storage \<Rightarrow> LanguageCode" where
  "language_init store = or_default (getItem store ''language'') ''en''"

definition isAutoplayEnabled_init :: "storage \<Rightarrow> bool" where
  "isAutoplayEnabled_init store = (getItem store ''isAutoplayEnabled'' \<noteq> Some ''false'')"

definition deviceView_init :: "storage \<Rightarrow> DeviceView" where
  "deviceView_init store = or_default (getItem store ''deviceView'') ''desktop''"

text \<open>
  \<^verbatim>\<open>JSON.parse\<close> is a built-in of the language and a parameter of the model: it gives a
  value or throws (\<open>Inl\<close>). The initialisers do not check the parsed value, so the
  parameter has the declared type of the state it fills: \<^verbatim>\<open>User | null\<close> and
  \<^verbatim>\<open>Video[]\<close>.

  The initialiser of \<^verbatim>\<open>user\<close> calls \<^verbatim>\<open>JSON.parse\<close> outside any
  \<^verbatim>\<open>try\<close>: what the parser throws leaves the initialiser.
\<close>

definition user_init :: "(string \<Rightarrow> error + User option) \<Rightarrow> storage \<Rightarrow> error + User option" where
  "user_init JSON_parse store =
     (let savedUser = getItem store ''user''
      in if truthy_string savedUser then JSON_parse (the savedUser) else Inr None)"

text \<open>
  The initialiser of \<^verbatim>\<open>playlist\<close>: the body of the \<^verbatim>\<open>try\<close>, and the
  \<^verbatim>\<open>catch\<close> around it. The second component of the result is what was written to
  \<^verbatim>\<open>console.error\<close>.
\<close>

definition playlist_init_try :: "(string \<Rightarrow> error + Video list) \<Rightarrow> storage \<Rightarrow> error + Video list" where
  "playlist_init_try JSON_parse store =
     (let savedPlaylist = getItem store ''playlist''
      in if truthy_string savedPlaylist then JSON_parse (the savedPlaylist) else Inr [])"

definition playlist_init ::
  "(string \<Rightarrow> error + Video list) \<Rightarrow> storage \<Rightarrow> error + (Video list \<times> string list)" where
  "playlist_init JSON_parse store =
     (case playlist_init_try JSON_parse store of
        Inr parsed \<Rightarrow> Inr (parsed, [])
      | Inl e \<Rightarrow> Inr ([], [''Failed to parse playlist from localStorage'']))"

section \<open>Application state and the handlers (src/App.tsx)\<close>

record app_state =
  isLoggedIn :: bool
  user :: "User option"
  theme :: Theme
  language :: LanguageCode
  isAutoplayEnabled :: bool
  deviceView :: DeviceView
  playlist :: "Video list"
  isSidebarCollapsed :: bool
  selectedVideo :: "Video option"
  activeModal :: "ModalType option"
  videos :: "Video list"
  searchQuery :: string
  selectedCategory :: "string option"

text \<open>
  The state of the first render: the initialisers run in the order of the source, and
  the first exception ends the render.
\<close>

definition initial_state ::
  "(string \<Rightarrow> error + User option) \<Rightarrow> (string \<Rightarrow> error + Video list) \<Rightarrow> storage
     \<Rightarrow> error + app_state" where
  "initial_state parse_user parse_playlist store =
     (case user_init parse_user store of
        Inl e \<Rightarrow> Inl e
      | Inr u \<Rightarrow>
     (case playlist_init parse_playlist store of
        Inl e \<Rightarrow> Inl e
      | Inr (p, logged) \<Rightarrow>
          Inr \<lparr>isLoggedIn = isLoggedIn_init store,
               user = u,
               theme = theme_init store,
               language = language_init store,
               isAutoplayEnabled = isAutoplayEnabled_init store,
               deviceView = deviceView_init store,
               playlist = p,
               isSidebarCollapsed = False,
               selectedVideo = None,
               activeModal = None,
               videos = [],
               searchQuery = [],
               selectedCategory = None\<rparr>))"

definition handleLogin :: "(string \<times> string) option \<Rightarrow> app_state \<Rightarrow> app_state" where
  "handleLogin credentials s =
     s\<lparr>user := Some \<lparr>name = ''Jane Doe'', email = ''jane.doe@example.com'',
                      avatarUrl = ''https://picsum.photos/seed/user/100/100''\<rparr>,
       isLoggedIn := True,
       activeModal := None\<rparr>"

definition handleLogout :: "app_state \<Rightarrow> app_state" where
  "handleLogout s =
     (let s1 = s\<lparr>user := None, isLoggedIn := False\<rparr>
      in if selectedCategory s = Some ''myPlaylist'' then s1\<lparr>selectedCategory := None\<rparr> else s1)"

definition handleVideoSelect :: "Video \<Rightarrow> app_state \<Rightarrow> app_state" where
  "handleVideoSelect video s = s\<lparr>selectedVideo := Some video\<rparr>"

definition handleGoBackToGrid :: "app_state \<Rightarrow> app_state" where
  "handleGoBackToGrid s = s\<lparr>selectedVideo := None\<rparr>"

definition handleOpenModal :: "ModalType \<Rightarrow> app_state \<Rightarrow> app_state" where
  "handleOpenModal modalType s = s\<lparr>activeModal := Some modalType\<rparr>"

definition handleCloseModal :: "app_state \<Rightarrow> app_state" where
  "handleCloseModal s = s\<lparr>activeModal := None\<rparr>"

definition toggleTheme :: "app_state \<Rightarrow> app_state" where
  "toggleTheme s = s\<lparr>theme := (if theme s = Theme_Light then Theme_Dark else Theme_Light)\<rparr>"

definition toggleAutoplay :: "app_state \<Rightarrow> app_state" where
  "toggleAutoplay s = s\<lparr>isAutoplayEnabled := \<not> isAutoplayEnabled s\<rparr>"

text \<open>What the user interface can ask of the state: the props handed to the components.\<close>

datatype intent =
  Login "(string \<times> string) option"
| Logout
| VideoSelect Video
| GoBackToGrid
| OpenModal ModalType
| CloseModal
| SwitchToSignUp
| SwitchToSignIn
| ToggleTheme
| ToggleAutoplay
| TogglePlaylist Video
| SetLanguage LanguageCode
| SearchChange string
| CategorySelect "string option"
| SetDeviceView DeviceView
| ToggleCollapse

fun apply_intent :: "intent \<Rightarrow> app_state \<Rightarrow> app_state" where
  "apply_intent (Login credentials) s = handleLogin credentials s"
| "apply_intent Logout s = handleLogout s"
| "apply_intent (VideoSelect video) s = handleVideoSelect video s"
| "apply_intent GoBackToGrid s = handleGoBackToGrid s"
| "apply_intent (OpenModal modalType) s = handleOpenModal modalType s"
| "apply_intent CloseModal s = handleCloseModal s"
| "apply_intent SwitchToSignUp s = s\<lparr>activeModal := Some SignUp\<rparr>"
| "apply_intent SwitchToSignIn s = s\<lparr>activeModal := Some SignIn\<rparr>"
| "apply_intent ToggleTheme s = toggleTheme s"
| "apply_intent ToggleAutoplay s = toggleAutoplay s"
| "apply_intent (TogglePlaylist video) s = s\<lparr>playlist := togglePlaylist (playlist s) video\<rparr>"
| "apply_intent (SetLanguage l) s = s\<lparr>language := l\<rparr>"
| "apply_intent (SearchChange q) s = s\<lparr>searchQuery := q\<rparr>"
| "apply_intent (CategorySelect c) s = s\<lparr>selectedCategory := c\<rparr>"
| "apply_intent (SetDeviceView d) s = s\<lparr>deviceView := d\<rparr>"
| "apply_intent ToggleCollapse s = s\<lparr>isSidebarCollapsed := \<not> isSidebarCollapsed s\<rparr>"


section \<open>The debounced effect (src/App.tsx, the effect on searchQuery, selectedCategory, playlist)\<close>

text \<open>
  The effect has the dependencies \<^verbatim>\<open>[searchQuery, selectedCategory, playlist]\<close>. When a
  render commits with a changed dependency, React runs the clean-up of the last run
  (\<^verbatim>\<open>clearTimeout(timer)\<close>) and then the effect, which sets a timer 300 units ahead; the
  callback of the timer closes over the three values of that render.

  Time is a natural number. A pending timer is its due time and the values its callback
  closed over; the model runs the callback at the due time, and before an intent that
  arrives at that same time. \<open>recomputations\<close> records every run of a callback: when
  it ran and from which values.
\<close>

type_synonym criteria = "string \<times> string option \<times> Video list"

definition deps :: "app_state \<Rightarrow> criteria" where
  "deps s = (searchQuery s, selectedCategory s, playlist s)"

record timed_state =
  app :: app_state
  clock :: nat
  timer :: "(nat \<times> criteria) option"
  recomputations :: "(nat \<times> criteria) list"

text \<open>The callback of the timer, run at time \<open>due\<close> with the values \<open>(q, c, p)\<close>.\<close>

definition timer_callback :: "Video list \<Rightarrow> nat \<Rightarrow> criteria \<Rightarrow> timed_state \<Rightarrow> timed_state" where
  "timer_callback MOCK_VIDEOS due crit ts =
     (case crit of (q, c, p) \<Rightarrow>
        ts\<lparr>app := (app ts)\<lparr>videos := filterVideos MOCK_VIDEOS q c p\<rparr>,
           timer := None,
           recomputations := recomputations ts @ [(due, crit)]\<rparr>)"

text \<open>Time passes up to \<open>at\<close>: a timer that is due by then runs.\<close>

definition advance :: "Video list \<Rightarrow> nat \<Rightarrow> timed_state \<Rightarrow> timed_state" where
  "advance MOCK_VIDEOS at ts =
     (let ts1 = (case timer ts of
                   None \<Rightarrow> ts
                 | Some (due, crit) \<Rightarrow>
                     if due \<le> at then timer_callback MOCK_VIDEOS due crit ts else ts)
      in ts1\<lparr>clock := max (clock ts1) at\<rparr>)"

text \<open>
  An intent arrives at time \<open>at\<close>. When it changes a dependency, the clean-up clears the
  pending timer and the effect sets a new one. React compares the playlist by reference:
  the only writer is the updater of \<^verbatim>\<open>togglePlaylist\<close>, which gives a new array of
  another length, so the comparison by value agrees with it.
\<close>

definition dispatch :: "Video list \<Rightarrow> nat \<times> intent \<Rightarrow> timed_state \<Rightarrow> timed_state" where
  "dispatch MOCK_VIDEOS ev ts =
     (case ev of (at, i) \<Rightarrow>
        (let ts1 = advance MOCK_VIDEOS at ts;
             a = apply_intent i (app ts1)
         in if deps a \<noteq> deps (app ts1)
            then ts1\<lparr>app := a, timer := Some (at + 300, deps a)\<rparr>
            else ts1\<lparr>app := a\<rparr>))"

fun run :: "Video list \<Rightarrow> timed_state \<Rightarrow> (nat \<times> intent) list \<Rightarrow> timed_state" where
  "run MOCK_VIDEOS ts [] = ts"
| "run MOCK_VIDEOS ts (ev # evs) = run MOCK_VIDEOS (dispatch MOCK_VIDEOS ev ts) evs"

text \<open>The first render at time 0: the effect runs once and sets the first timer.\<close>

definition mount :: "app_state \<Rightarrow> timed_state" where
  "mount s = \<lparr>app = s, clock = 0, timer = Some (300, deps s), recomputations = []\<rparr>"

text \<open>
  A burst, in the words of the specification: every event changes the search query, the
  selected category or the playlist, and every event comes less than 300 units after the
  one before it.
\<close>

fun all_triggers :: "app_state \<Rightarrow> intent list \<Rightarrow> bool" where
  "all_triggers s [] = True"
| "all_triggers s (i # is) =
     (deps (apply_intent i s) \<noteq> deps s \<and> all_triggers (apply_intent i s) is)"

fun within_quiet :: "nat \<Rightarrow> nat list \<Rightarrow> bool" where
  "within_quiet previous [] = True"
| "within_quiet previous (at # ats) =
     (previous \<le> at \<and> at < previous + 300 \<and> within_quiet at ats)"

text \<open>The state of the application after a list of intents, without the timer.\<close>

fun apply_intents :: "app_state \<Rightarrow> intent list \<Rightarrow> app_state" where
  "apply_intents s [] = s"
| "apply_intents s (i # is) = apply_intents (apply_intent i s) is"

text \<open>No timer of the state is due at or before \<open>at\<close>, and the clock has not passed it.\<close>

definition nothing_due :: "timed_state \<Rightarrow> nat \<Rightarrow> bool" where
  "nothing_due ts at =
     (clock ts \<le> at \<and> (case timer ts of None \<Rightarrow> True | Some (due, crit) \<Rightarrow> at < due))"

text \<open>Sample videos for the concrete checks.\<close>

definition jazz :: Video where
  "jazz = \<lparr>video_id = 1, url = ''u1'', thumbnailUrl = ''t1'', title = ''Jazz Night'',
           description = ''Live set'', price = 10, category = ''music''\<rparr>"

definition finals :: Video where
  "finals = \<lparr>video_id = 2, url = ''u2'', thumbnailUrl = ''t2'', title = ''Finals'',
             description = ''The last game'', price = 20, category = ''sports''\<rparr>"

definition jazz_copy :: Video where
  "jazz_copy = \<lparr>video_id = 1, url = ''u1b'', thumbnailUrl = ''t1b'', title = ''Jazz Night 2'',
                description = ''Encore'', price = 12, category = ''music''\<rparr>"


text \<open>Sample dictionaries: English, and a Portuguese one that lacks the settings.\<close>

definition sample_translations :: "(string \<times> jsval) list" where
  "sample_translations =
     [(''en'', JObj [(''greeting'', JStr ''Hello''),
                     (''sidebar'', JObj [(''settings'', JObj [(''theme'', JStr ''Theme'')])])]),
      (''pt'', JObj [(''greeting'', JStr ''Ola''),
                     (''sidebar'', JObj [(''settings'', JNum 0)])])]"

text \<open>A state of the application in which every field differs from its initial value.\<close>

definition sample_state :: app_state where
  "sample_state =
     \<lparr>isLoggedIn = True,
      user = Some \<lparr>name = ''Ann'', email = ''ann@example.com'', avatarUrl = ''a.png''\<rparr>,
      theme = ''light'', language = ''pt'', isAutoplayEnabled = False, deviceView = ''smartphone'',
      playlist = [finals], isSidebarCollapsed = True, selectedVideo = Some jazz,
      activeModal = Some SignUp, videos = [finals], searchQuery = ''fin'',
      selectedCategory = Some ''myPlaylist''\<rparr>"

text \<open>
  Instances of the parameter \<^verbatim>\<open>JSON.parse\<close> for the concrete checks. The checks apply
  them to the texts \<^verbatim>\<open>null\<close>, \<^verbatim>\<open>[]\<close> and \<^verbatim>\<open>{\<close> only: the first two are
  the JSON of \<^verbatim>\<open>null\<close> and of the empty array, the last is not JSON and makes
  \<^verbatim>\<open>JSON.parse\<close> throw a SyntaxError.
\<close>

definition sample_parse_user :: "string \<Rightarrow> error + User option" where
  "sample_parse_user text = (if text = ''null'' then Inr None else Inl SyntaxError)"

definition sample_parse_playlist :: "string \<Rightarrow> error + Video list" where
  "sample_parse_playlist text = (if text = ''[]'' then Inr [] else Inl SyntaxError)"

text \<open>Sample contents of the storage.\<close>

definition sample_store :: storage where
  "sample_store = [''theme'' \<mapsto> ''light'', ''language'' \<mapsto> [], ''isAutoplayEnabled'' \<mapsto> ''maybe'']"

definition corrupt_store :: storage where
  "corrupt_store = [''user'' \<mapsto> ''{'', ''playlist'' \<mapsto> ''{'']"


text \<open>A state at time 1000 with no timer pending.\<close>

definition quiet_state :: timed_state where
  "quiet_state = \<lparr>app = sample_state\<lparr>searchQuery := [], selectedCategory := None\<rparr>,
                  clock = 1000, timer = None, recomputations = []\<rparr>"

text \<open>Three changes of the query, 100 and 150 units apart.\<close>

definition typing :: "(nat \<times> intent) list" where
  "typing = [(1000, SearchChange ''j''), (1100, SearchChange ''ja''), (1250, SearchChange ''jaz'')]"

section \<open>Library functions against HOL's\<close>

lemma array_some_iff: "array_some p xs \<longleftrightarrow> (\<exists>x \<in> set xs. p x)"
  by (induction xs) auto

lemma array_filter_eq: "array_filter p xs = filter p xs"
  by (induction xs) auto

lemma filter_id_absent:
  "i \<notin> video_id ` set P \<Longrightarrow> filter (\<lambda>v. video_id v \<noteq> i) P = P"
  by (induction P) auto

lemma filter_id_absent_eq:
  "i \<notin> video_id ` set P \<Longrightarrow> filter (\<lambda>v. video_id v = i) P = []"
  by (induction P) auto

lemma id_occurs_iff:
  "array_some (\<lambda>x. video_id x = i) P \<longleftrightarrow> i \<in> video_id ` set P"
  by (auto simp: array_some_iff)

lemma togglePlaylist_present:
  "video_id v \<in> video_id ` set P \<Longrightarrow>
     togglePlaylist P v = filter (\<lambda>x. video_id x \<noteq> video_id v) P"
  by (simp add: togglePlaylist_def id_occurs_iff array_filter_eq)

lemma togglePlaylist_absent:
  "video_id v \<notin> video_id ` set P \<Longrightarrow> togglePlaylist P v = P @ [v]"
  by (simp add: togglePlaylist_def id_occurs_iff)



section \<open>Playlist: the claims\<close>

text \<open>
  C7. For every playlist P and every video v whose id is not the id of any entry of P,
  toggling v gives P with v appended after all existing entries, and the id of v occurs
  exactly once in the result.
\<close>

theorem toggle_appends_new:
  assumes "video_id v \<notin> video_id ` set P"
  shows "togglePlaylist P v = P @ [v] \<and> id_count (video_id v) (togglePlaylist P v) = 1"
proof -
  have app: "togglePlaylist P v = P @ [v]"
    using assms by (rule togglePlaylist_absent)
  have "id_count (video_id v) (P @ [v]) = 1"
    using assms by (simp add: id_count_def filter_id_absent_eq)
  with app show ?thesis by simp
qed

theorem toggle_appends_new_witness:
  "video_id finals \<notin> video_id ` set [jazz] \<and> togglePlaylist [jazz] finals = [jazz, finals]
   \<and> id_count (video_id finals) (togglePlaylist [jazz] finals) = 1"
proof -
  have h: "video_id finals \<notin> video_id ` set [jazz]"
    by (simp add: jazz_def finals_def)
  note t = toggle_appends_new [OF h]
  from t have a: "togglePlaylist [jazz] finals = [jazz, finals]"
    by simp
  from t have b: "id_count (video_id finals) (togglePlaylist [jazz] finals) = 1"
    by blast
  from h a b show ?thesis by blast
qed

text \<open>
  C10. For every playlist P, also one that already holds several entries with the same
  id, and every video v: the toggled playlist holds at most one entry with the id of v,
  and when P holds any entry with that id the toggled playlist holds none of them.
\<close>

theorem toggle_at_most_one:
  "id_count (video_id v) (togglePlaylist P v) \<le> 1 \<and>
   (video_id v \<in> video_id ` set P \<longrightarrow> id_count (video_id v) (togglePlaylist P v) = 0)"
proof (cases "video_id v \<in> video_id ` set P")
  case True
  then have "togglePlaylist P v = filter (\<lambda>x. video_id x \<noteq> video_id v) P"
    by (rule togglePlaylist_present)
  then have "id_count (video_id v) (togglePlaylist P v) = 0"
    by (simp add: id_count_def)
  then show ?thesis by simp
next
  case False
  then have "togglePlaylist P v = P @ [v]"
    by (rule togglePlaylist_absent)
  with False have "id_count (video_id v) (togglePlaylist P v) = 1"
    by (simp add: id_count_def filter_id_absent_eq)
  with False show ?thesis by simp
qed

theorem toggle_at_most_one_witness:
  "video_id jazz \<in> video_id ` set [jazz, finals, jazz_copy] \<and>
   id_count (video_id jazz) [jazz, finals, jazz_copy] = 2 \<and>
   id_count (video_id jazz) (togglePlaylist [jazz, finals, jazz_copy] jazz) = 0 \<and>
   togglePlaylist [jazz, finals, jazz_copy] jazz = [finals]"
proof -
  have h: "video_id jazz \<in> video_id ` set [jazz, finals, jazz_copy]"
    by (simp add: jazz_def)
  have c: "id_count (video_id jazz) [jazz, finals, jazz_copy] = 2"
    by (simp add: id_count_def jazz_def finals_def jazz_copy_def)
  have t: "togglePlaylist [jazz, finals, jazz_copy] jazz = [finals]"
    by (simp add: togglePlaylist_def jazz_def finals_def jazz_copy_def)
  from toggle_at_most_one [where v = jazz and P = "[jazz, finals, jazz_copy]"] h
  have "id_count (video_id jazz) (togglePlaylist [jazz, finals, jazz_copy] jazz) = 0"
    by blast
  with h c t show ?thesis by blast
qed

text \<open>
  C2, as the code has it. Toggling a video twice gives back the playlist when the id of
  the video does not occur in it. When the id does occur, the first toggle removes every
  entry with that id and the second appends the video: the other entries keep their
  order, and the video stands last.
\<close>

theorem toggle_twice:
  "togglePlaylist (togglePlaylist P v) v =
     (if video_id v \<in> video_id ` set P
      then filter (\<lambda>x. video_id x \<noteq> video_id v) P @ [v]
      else P)"
proof (cases "video_id v \<in> video_id ` set P")
  case True
  let ?Q = "filter (\<lambda>x. video_id x \<noteq> video_id v) P"
  have first: "togglePlaylist P v = ?Q"
    using True by (rule togglePlaylist_present)
  have "video_id v \<notin> video_id ` set ?Q" by auto
  then have "togglePlaylist ?Q v = ?Q @ [v]"
    by (rule togglePlaylist_absent)
  with first True show ?thesis by simp
next
  case False
  have first: "togglePlaylist P v = P @ [v]"
    using False by (rule togglePlaylist_absent)
  have "video_id v \<in> video_id ` set (P @ [v])" by simp
  then have "togglePlaylist (P @ [v]) v = filter (\<lambda>x. video_id x \<noteq> video_id v) (P @ [v])"
    by (rule togglePlaylist_present)
  also have "\<dots> = P"
    using False by (simp add: filter_id_absent)
  finally show ?thesis
    using first False by simp
qed

theorem toggle_twice_witness:
  "togglePlaylist (togglePlaylist [jazz] finals) finals = [jazz] \<and>
   togglePlaylist (togglePlaylist [jazz, finals] jazz) jazz = [finals, jazz]"
proof -
  have a: "video_id finals \<notin> video_id ` set [jazz]"
    by (simp add: jazz_def finals_def)
  have b: "video_id jazz \<in> video_id ` set [jazz, finals]"
    by simp
  have f: "filter (\<lambda>x. video_id x \<noteq> video_id jazz) [jazz, finals] = [finals]"
    by (simp add: jazz_def finals_def)
  from toggle_twice [where v = finals and P = "[jazz]"] a
  have one: "togglePlaylist (togglePlaylist [jazz] finals) finals = [jazz]"
    by simp
  from toggle_twice [where v = jazz and P = "[jazz, finals]"] b f
  have two: "togglePlaylist (togglePlaylist [jazz, finals] jazz) jazz = [finals, jazz]"
    by simp
  from one two show ?thesis by simp
qed

text \<open>
  C2, as the specification states it, fails: with the two entries jazz (id 1) and finals
  (id 2), whose ids are distinct, toggling jazz twice moves it behind finals.
\<close>

theorem toggle_twice_counterexample:
  "distinct (map video_id [jazz, finals]) \<and>
   togglePlaylist (togglePlaylist [jazz, finals] jazz) jazz = [finals, jazz] \<and>
   togglePlaylist (togglePlaylist [jazz, finals] jazz) jazz \<noteq> [jazz, finals]"
  by (simp add: togglePlaylist_def jazz_def finals_def)

section \<open>Filter pipeline: the claim\<close>




section \<open>Translation resolver: the claim\<close>

lemma has_own_iff: "k \<in> fst ` set ps \<longleftrightarrow> map_of ps k \<noteq> None"
  by (simp add: map_of_eq_None_iff)

lemma walk_language_spec:
  "\<exists>v. walk_language r keys = Inr v \<and> spec_walk r keys = as_string v"
proof (induction keys arbitrary: r)
  case Nil
  show ?case by (cases r) auto
next
  case (Cons k keys)
  show ?case
  proof (cases r)
    case (JObj ps)
    show ?thesis
    proof (cases "map_of ps k")
      case None
      with JObj show ?thesis
        by (simp add: segment_found_def has_own_iff)
    next
      case (Some v)
      with JObj Cons.IH [of v] show ?thesis
        by (simp add: segment_found_def has_own_iff)
    qed
  qed (simp_all add: segment_found_def)
qed

lemma walk_fallback_spec:
  "\<exists>w. walk_fallback r keys = Inr w \<and>
       spec_walk r keys = (case w of None \<Rightarrow> None | Some v \<Rightarrow> as_string v)"
proof (induction keys arbitrary: r)
  case Nil
  show ?case by (cases r) auto
next
  case (Cons k keys)
  show ?case
  proof (cases r)
    case (JObj ps)
    show ?thesis
    proof (cases "map_of ps k")
      case None
      with JObj show ?thesis
        by (simp add: segment_found_def has_own_iff)
    next
      case (Some v)
      with JObj Cons.IH [of v] show ?thesis
        by (simp add: segment_found_def has_own_iff)
    qed
  qed (simp_all add: segment_found_def)
qed

lemma spec_walk_undefined: "spec_walk JUndefined keys = None"
  by (cases keys) auto

text \<open>
  C3. For every key, language code and set of dictionaries, the resolver returns a
  string and throws nothing, and the string is the one the walk of the specification
  gives: the value found in the dictionary of the language, else the value found by the
  same walk in the dictionary of \<^verbatim>\<open>en\<close>, else the key itself.
\<close>

theorem translate_resolves: "translate T lang key = Inr (spec_resolve T lang key)"
proof -
  let ?keys = "str_split (CHR ''.'') key"
  let ?start = "\<lambda>l. case map_of T l of None \<Rightarrow> JUndefined | Some d \<Rightarrow> d"
  have in_eq: "spec_resolve_in T l key = spec_walk (?start l) ?keys" for l
    by (simp add: spec_resolve_in_def spec_walk_undefined split: option.split)
  obtain v where v: "walk_language (?start lang) ?keys = Inr v"
    and vs: "spec_walk (?start lang) ?keys = as_string v"
    using walk_language_spec by blast
  obtain w where w: "walk_fallback (?start ''en'') ?keys = Inr w"
    and ws: "spec_walk (?start ''en'') ?keys = (case w of None \<Rightarrow> None | Some u \<Rightarrow> as_string u)"
    using walk_fallback_spec by blast
  show ?thesis
  proof (cases "as_string v")
    case (Some s)
    then have "v = JStr s" by (cases v) auto
    with v vs Some show ?thesis
      by (simp add: translate_def spec_resolve_def in_eq)
  next
    case None
    show ?thesis
    proof (cases w)
      case wn: None
      with v w vs ws None show ?thesis
        by (cases v) (simp_all add: translate_def spec_resolve_def in_eq)
    next
      case (Some u)
      with v w vs ws None show ?thesis
        by (cases v; cases u) (simp_all add: translate_def spec_resolve_def in_eq)
    qed
  qed
qed

theorem translate_resolves_witness:
  "translate sample_translations ''pt'' ''greeting'' = Inr ''Ola'' \<and>
   translate sample_translations ''pt'' ''sidebar.settings.theme'' = Inr ''Theme'' \<and>
   translate sample_translations ''xx'' ''a.b.c'' = Inr ''a.b.c'' \<and>
   translate sample_translations ''en'' ''sidebar.settings'' = Inr ''sidebar.settings''"
proof -
  have a: "spec_resolve sample_translations ''pt'' ''greeting'' = ''Ola''"
    by code_simp
  have b: "spec_resolve sample_translations ''pt'' ''sidebar.settings.theme'' = ''Theme''"
    by code_simp
  have c: "spec_resolve sample_translations ''xx'' ''a.b.c'' = ''a.b.c''"
    by code_simp
  have d: "spec_resolve sample_translations ''en'' ''sidebar.settings'' = ''sidebar.settings''"
    by code_simp
  show ?thesis
    unfolding translate_resolves a b c d by simp
qed

section \<open>Loading from storage: the claims\<close>

lemma or_default_cases:
  "or_default stored fallback =
     (case stored of None \<Rightarrow> fallback | Some s \<Rightarrow> if s = [] then fallback else s)"
  by (cases stored) (auto simp: or_default_def)

text \<open>
  C4, as the code has it. The four preference initialisers are total. A missing or empty
  stored value gives the default of the field: dark for the theme, \<^verbatim>\<open>en\<close> for the
  language, desktop for the device view. Every other stored string is taken as it is,
  with no check against the legal values of the field. Autoplay is false exactly when
  the stored value is the string \<^verbatim>\<open>false\<close>, and true otherwise.
\<close>

theorem preferences_loaded:
  "(getItem store ''theme'' = None \<or> getItem store ''theme'' = Some [] \<longrightarrow>
      theme_init store = Theme_Dark) \<and>
   (getItem store ''theme'' = Some s1 \<and> s1 \<noteq> [] \<longrightarrow> theme_init store = s1) \<and>
   (getItem store ''language'' = None \<or> getItem store ''language'' = Some [] \<longrightarrow>
      language_init store = ''en'') \<and>
   (getItem store ''language'' = Some s2 \<and> s2 \<noteq> [] \<longrightarrow> language_init store = s2) \<and>
   (getItem store ''deviceView'' = None \<or> getItem store ''deviceView'' = Some [] \<longrightarrow>
      deviceView_init store = ''desktop'') \<and>
   (getItem store ''deviceView'' = Some s3 \<and> s3 \<noteq> [] \<longrightarrow> deviceView_init store = s3) \<and>
   (isAutoplayEnabled_init store \<longleftrightarrow> getItem store ''isAutoplayEnabled'' \<noteq> Some ''false'')"
  by (auto simp: theme_init_def language_init_def deviceView_init_def isAutoplayEnabled_init_def
      or_default_cases)

theorem preferences_loaded_witness:
  "getItem sample_store ''theme'' = Some ''light'' \<and> theme_init sample_store = ''light'' \<and>
   getItem sample_store ''language'' = Some [] \<and> language_init sample_store = ''en'' \<and>
   getItem sample_store ''deviceView'' = None \<and> deviceView_init sample_store = ''desktop'' \<and>
   getItem sample_store ''isAutoplayEnabled'' = Some ''maybe'' \<and> isAutoplayEnabled_init sample_store"
proof -
  have t: "getItem sample_store ''theme'' = Some ''light''"
    and l: "getItem sample_store ''language'' = Some []"
    and d: "getItem sample_store ''deviceView'' = None"
    and a: "getItem sample_store ''isAutoplayEnabled'' = Some ''maybe''"
    by (simp_all add: getItem_def sample_store_def)
  note p = preferences_loaded [where store = sample_store and ?s1.0 = "''light''"]
  from p t have 1: "theme_init sample_store = ''light''" by simp
  from p l have 2: "language_init sample_store = ''en''" by simp
  from p d have 3: "deviceView_init sample_store = ''desktop''" by simp
  from p a have 4: "isAutoplayEnabled_init sample_store" by simp
  from t l d a 1 2 3 4 show ?thesis by blast
qed

text \<open>
  C4, as the specification states it, fails: a stored theme that is neither
  \<^verbatim>\<open>light\<close> nor \<^verbatim>\<open>dark\<close> is the theme of the loaded state.
\<close>

theorem preferences_loaded_counterexample:
  "theme_init [''theme'' \<mapsto> ''purple''] = ''purple'' \<and>
   ''purple'' \<noteq> Theme_Light \<and> ''purple'' \<noteq> Theme_Dark"
  by (simp add: theme_init_def or_default_def getItem_def Theme_Light_def Theme_Dark_def)

text \<open>
  C5. The claim holds for the playlist and fails for the user. When the same text is
  stored under both keys and \<^verbatim>\<open>JSON.parse\<close> throws on it, the initialiser of the
  playlist catches the exception, logs and gives the empty playlist, while the
  initialiser of the user lets the exception out, and with it the first render.
\<close>

theorem malformed_user_propagates:
  assumes "getItem store ''user'' = Some text" and "getItem store ''playlist'' = Some text"
    and "text \<noteq> []"
    and "parse_user text = Inl e" and "parse_playlist text = Inl e"
  shows "playlist_init parse_playlist store =
           Inr ([], [''Failed to parse playlist from localStorage'']) \<and>
         user_init parse_user store = Inl e \<and>
         initial_state parse_user parse_playlist store = Inl e"
  using assms
  by (simp add: playlist_init_def playlist_init_try_def user_init_def initial_state_def)

theorem malformed_user_propagates_witness:
  "getItem corrupt_store ''user'' = Some ''{'' \<and> getItem corrupt_store ''playlist'' = Some ''{'' \<and>
   sample_parse_user ''{'' = Inl SyntaxError \<and> sample_parse_playlist ''{'' = Inl SyntaxError \<and>
   playlist_init sample_parse_playlist corrupt_store =
     Inr ([], [''Failed to parse playlist from localStorage'']) \<and>
   user_init sample_parse_user corrupt_store = Inl SyntaxError \<and>
   initial_state sample_parse_user sample_parse_playlist corrupt_store = Inl SyntaxError"
proof -
  have u: "getItem corrupt_store ''user'' = Some ''{''"
    and p: "getItem corrupt_store ''playlist'' = Some ''{''"
    by (simp_all add: getItem_def corrupt_store_def)
  have n: "''{'' \<noteq> []" by simp
  have pu: "sample_parse_user ''{'' = Inl SyntaxError"
    by (simp add: sample_parse_user_def)
  have pp: "sample_parse_playlist ''{'' = Inl SyntaxError"
    by (simp add: sample_parse_playlist_def)
  from malformed_user_propagates [where parse_user = sample_parse_user
      and parse_playlist = sample_parse_playlist, OF u p n pu pp] u p pu pp
  show ?thesis
    by blast
qed

section \<open>Session: the claims\<close>

text \<open>
  C6. For every state, logging out clears the profile and the logged-in flag, sets the
  selected category to none when it was the sentinel \<^verbatim>\<open>myPlaylist\<close>, leaves it as it
  was in every other case, and changes no other field: the search query and the playlist
  among them.
\<close>

theorem logout_frame:
  "user (handleLogout s) = None \<and> \<not> isLoggedIn (handleLogout s) \<and>
   (selectedCategory s = Some ''myPlaylist'' \<longrightarrow> selectedCategory (handleLogout s) = None) \<and>
   (selectedCategory s \<noteq> Some ''myPlaylist'' \<longrightarrow>
      selectedCategory (handleLogout s) = selectedCategory s) \<and>
   searchQuery (handleLogout s) = searchQuery s \<and>
   playlist (handleLogout s) = playlist s \<and>
   handleLogout s =
     s\<lparr>user := None, isLoggedIn := False, selectedCategory := selectedCategory (handleLogout s)\<rparr>"
  by (simp add: handleLogout_def Let_def)

theorem logout_frame_witness:
  "selectedCategory sample_state = Some ''myPlaylist'' \<and>
   selectedCategory (handleLogout sample_state) = None \<and>
   selectedCategory (sample_state\<lparr>selectedCategory := Some ''sports''\<rparr>) \<noteq> Some ''myPlaylist'' \<and>
   selectedCategory (handleLogout (sample_state\<lparr>selectedCategory := Some ''sports''\<rparr>)) =
     Some ''sports''"
proof -
  have a: "selectedCategory sample_state = Some ''myPlaylist''"
    by (simp add: sample_state_def)
  have b: "selectedCategory (sample_state\<lparr>selectedCategory := Some ''sports''\<rparr>) \<noteq> Some ''myPlaylist''"
    by simp
  from logout_frame [where s = sample_state] a
  have c: "selectedCategory (handleLogout sample_state) = None"
    by blast
  from logout_frame [where s = "sample_state\<lparr>selectedCategory := Some ''sports''\<rparr>"] b
  have d: "selectedCategory (handleLogout (sample_state\<lparr>selectedCategory := Some ''sports''\<rparr>)) =
     Some ''sports''"
    by simp
  from a b c d show ?thesis by blast
qed








section \<open>The debounced effect: the claim\<close>

lemma advance_nothing_due:
  "nothing_due ts at \<Longrightarrow> advance cat at ts = ts\<lparr>clock := at\<rparr>"
  by (auto simp: nothing_due_def advance_def Let_def max_def split: option.splits)

lemma dispatch_trigger:
  assumes "nothing_due ts at" and "deps (apply_intent i (app ts)) \<noteq> deps (app ts)"
  shows "dispatch cat (at, i) ts =
           ts\<lparr>clock := at, app := apply_intent i (app ts),
              timer := Some (at + 300, deps (apply_intent i (app ts)))\<rparr>"
  using assms by (simp add: dispatch_def advance_nothing_due Let_def)

lemma burst_run:
  assumes "all_triggers (app ts) (map snd evs)"
    and "within_quiet previous (map fst evs)"
    and "clock ts = previous"
    and "timer ts = Some (previous + 300, deps (app ts))"
  shows "app (run cat ts evs) = apply_intents (app ts) (map snd evs) \<and>
         recomputations (run cat ts evs) = recomputations ts \<and>
         clock (run cat ts evs) = last (previous # map fst evs) \<and>
         timer (run cat ts evs) =
           Some (last (previous # map fst evs) + 300,
                 deps (apply_intents (app ts) (map snd evs)))"
  using assms
proof (induction evs arbitrary: ts previous)
  case Nil
  then show ?case by simp
next
  case (Cons ev evs)
  obtain at i where ev: "ev = (at, i)" by (cases ev)
  let ?ts = "dispatch cat (at, i) ts"
  from Cons.prems ev have trig: "deps (apply_intent i (app ts)) \<noteq> deps (app ts)"
    and rest: "all_triggers (apply_intent i (app ts)) (map snd evs)"
    and le: "previous \<le> at" and lt: "at < previous + 300"
    and quiet: "within_quiet at (map fst evs)"
    by simp_all
  from Cons.prems le lt have due: "nothing_due ts at"
    by (simp add: nothing_due_def)
  note d = dispatch_trigger [OF due trig, of cat]
  have 1: "all_triggers (app ?ts) (map snd evs)" using rest by (simp add: d)
  have 3: "clock ?ts = at" by (simp add: d)
  have 4: "timer ?ts = Some (at + 300, deps (app ?ts))" by (simp add: d)
  from Cons.IH [OF 1 quiet 3 4]
  show ?case
    by (simp add: ev d)
qed

lemma advance_fires:
  assumes "timer ts = Some (due, crit)" and "due \<le> T"
  shows "recomputations (advance cat T ts) = recomputations ts @ [(due, crit)] \<and>
         videos (app (advance cat T ts)) =
           (case crit of (q, c, p) \<Rightarrow> filterVideos cat q c p) \<and>
         timer (advance cat T ts) = None"
  using assms by (simp add: advance_def timer_callback_def Let_def split: prod.splits)

lemma advance_waits:
  assumes "timer ts = Some (due, crit)" and "T < due"
  shows "recomputations (advance cat T ts) = recomputations ts \<and>
         timer (advance cat T ts) = Some (due, crit)"
  using assms by (simp add: advance_def Let_def)

text \<open>
  C8. A burst is a first change at time \<open>at\<close>, when no timer is due, followed by changes
  that each come less than 300 units after the one before; every change alters the
  search query, the selected category or the playlist. During the burst no recomputation
  runs: each change clears the pending timer. Up to any time before 300 units after the
  last change none has run; from that time on exactly one has run, at 300 units after the
  last change, from the values the last change left, and its result is the visible set.
\<close>

theorem debounce_burst:
  assumes "nothing_due ts at"
    and "all_triggers (app ts) (i # map snd evs)"
    and "within_quiet at (map fst evs)"
    and "last (at # map fst evs) + 300 \<le> T"
    and "T' < last (at # map fst evs) + 300"
  shows "recomputations (run catalog ts ((at, i) # evs)) = recomputations ts \<and>
         recomputations (advance catalog T' (run catalog ts ((at, i) # evs))) = recomputations ts \<and>
         recomputations (advance catalog T (run catalog ts ((at, i) # evs))) =
           recomputations ts @
             [(last (at # map fst evs) + 300, deps (apply_intents (app ts) (i # map snd evs)))] \<and>
         videos (app (advance catalog T (run catalog ts ((at, i) # evs)))) =
           (case deps (apply_intents (app ts) (i # map snd evs)) of
              (q, c, p) \<Rightarrow> filterVideos catalog q c p) \<and>
         timer (advance catalog T (run catalog ts ((at, i) # evs))) = None"
proof -
  let ?ts1 = "dispatch catalog (at, i) ts"
  let ?end = "run catalog ts ((at, i) # evs)"
  let ?due = "last (at # map fst evs) + 300"
  let ?crit = "deps (apply_intents (app ts) (i # map snd evs))"
  from assms(2) have trig: "deps (apply_intent i (app ts)) \<noteq> deps (app ts)"
    and rest: "all_triggers (apply_intent i (app ts)) (map snd evs)"
    by simp_all
  note d = dispatch_trigger [OF assms(1) trig, of catalog]
  have 1: "all_triggers (app ?ts1) (map snd evs)" using rest by (simp add: d)
  have 3: "clock ?ts1 = at" by (simp add: d)
  have 4: "timer ?ts1 = Some (at + 300, deps (app ?ts1))" by (simp add: d)
  have e: "?end = run catalog ?ts1 evs" by simp
  from burst_run [OF 1 assms(3) 3 4, of catalog]
  have recs: "recomputations ?end = recomputations ts"
    and tm: "timer ?end = Some (?due, ?crit)"
    unfolding e by (simp_all add: d)
  from advance_fires [OF tm assms(4), of catalog] advance_waits [OF tm assms(5), of catalog] recs
  show ?thesis by simp
qed

theorem debounce_burst_witness:
  "nothing_due quiet_state 1000 \<and>
   all_triggers (app quiet_state) (map snd typing) \<and>
   within_quiet 1000 (map fst (tl typing)) \<and>
   recomputations (advance [jazz, finals] 1549 (run [jazz, finals] quiet_state typing)) = [] \<and>
   recomputations (advance [jazz, finals] 1550 (run [jazz, finals] quiet_state typing)) =
     [(1550, (''jaz'', None, [finals]))] \<and>
   videos (app (advance [jazz, finals] 1550 (run [jazz, finals] quiet_state typing))) = [jazz] \<and>
   timer (advance [jazz, finals] 1550 (run [jazz, finals] quiet_state typing)) = None"
proof -
  let ?evs = "[(1100, SearchChange ''ja''), (1250, SearchChange ''jaz'')]"
  have ty: "typing = (1000, SearchChange ''j'') # ?evs"
    by (simp add: typing_def)
  have a: "nothing_due quiet_state 1000"
    by (simp add: nothing_due_def quiet_state_def)
  have b: "all_triggers (app quiet_state) (SearchChange ''j'' # map snd ?evs)"
    by (simp add: quiet_state_def deps_def)
  have c: "within_quiet 1000 (map fst ?evs)"
    by simp
  have d: "last (1000 # map fst ?evs) + 300 \<le> (1550::nat)"
    by simp
  have e: "(1549::nat) < last (1000 # map fst ?evs) + 300"
    by simp
  have crit: "deps (apply_intents (app quiet_state) (SearchChange ''j'' # map snd ?evs)) =
      (''jaz'', None, [finals])"
    by (simp add: quiet_state_def sample_state_def deps_def)
  have f: "filterVideos [jazz, finals] ''jaz'' None [finals] = [jazz]"
    by code_simp
  have r0: "recomputations quiet_state = []"
    by (simp add: quiet_state_def)
  note w = debounce_burst [OF a b c d e, where catalog = "[jazz, finals]"]
  from w a b c show ?thesis
    unfolding ty crit r0 by (simp add: f)
qed

end
